theory Spec2Isabelle
  imports Main
begin

section \<open>Data model\<close>

text \<open>
  A raw record as a catalog source returns it (\<open>GoogleApp | AppleApp\<close> in
  \<open>scraper.ts\<close>). The script reads three things of it: the property \<open>title\<close>, the
  property \<open>searchTerm\<close> that \<open>scrape\<close> stamps on it, and whether it owns a property
  \<open>summary\<close> (\<open>isGoogleApp\<close>). A property that a JavaScript object does not carry
  reads as \<open>undefined\<close>: this is \<open>None\<close>. Everything else the record carries is opaque
  to the script and kept in \<open>rest\<close>.
\<close>

record 'f App =
  title :: "string option"
  searchTerm :: "string option"
  summary :: "string option"
  rest :: 'f

text \<open>
  Modelled from the spec: the class \<open>CombinedApp\<close> of \<open>./interfaces\<close>, which is not
  part of the sources at hand. The spec gives it the two provenance markers
  \<open>titleGoogle\<close> and \<open>titleApple\<close> (text or absent) and, for the fields of each source
  variant, corresponding fields that only that source populates; the latter are kept
  here as one copy of the contributing record per source.
\<close>

record 'f CombinedApp =
  titleGoogle :: "string option"
  titleApple :: "string option"
  dataGoogle :: "'f App option"
  dataApple :: "'f App option"

text \<open>The object literal \<open>{ ...app, bothAppStores: ... }\<close> that is exported.\<close>

record 'f ExportedApp = "'f CombinedApp" +
  bothAppStores :: bool

datatype error = ScrapeError | TypeError

text \<open>
  Modelled from the spec: \<open>new CombinedApp()\<close>, a record created on first encounter of
  a title with nothing contributed yet.
\<close>

definition newCombinedApp :: "'f CombinedApp" where
  "newCombinedApp =
     \<lparr>titleGoogle = None, titleApple = None, dataGoogle = None, dataApple = None\<rparr>"

text \<open>
  Modelled from the spec: the methods \<open>addGoogleAppData\<close> and \<open>addAppleAppData\<close> of
  \<open>CombinedApp\<close>, missing with the class. They copy the fields of the source record
  into the fields of their source and set the provenance marker of that source to the
  record's title; what an earlier record of the same source left there is overwritten.
\<close>

definition addGoogleAppData :: "'f CombinedApp \<Rightarrow> 'f App \<Rightarrow> 'f CombinedApp" where
  "addGoogleAppData c app = c\<lparr>titleGoogle := title app, dataGoogle := Some app\<rparr>"

definition addAppleAppData :: "'f CombinedApp \<Rightarrow> 'f App \<Rightarrow> 'f CombinedApp" where
  "addAppleAppData c app = c\<lparr>titleApple := title app, dataApple := Some app\<rparr>"

section \<open>JavaScript values\<close>

text \<open>
  Truthiness of a value that is a string or \<open>undefined\<close>: \<open>undefined\<close> and the empty
  string are falsy. \<open>a && b\<close> is \<open>a\<close> when \<open>a\<close> is falsy and \<open>b\<close> otherwise;
  \<open>Boolean(v)\<close> is the truthiness of \<open>v\<close>.
\<close>

fun truthy :: "string option \<Rightarrow> bool" where
  "truthy None = False"
| "truthy (Some s) = (s \<noteq> [])"

definition js_and :: "string option \<Rightarrow> string option \<Rightarrow> string option" where
  "js_and a b = (if truthy a then b else a)"

definition Boolean :: "string option \<Rightarrow> bool" where
  "Boolean v = truthy v"

text \<open>
  A JavaScript \<open>Map\<close>: entries in insertion order. \<open>set\<close> at a key the map holds keeps
  the entry's place and replaces its value; at a new key it appends. Keys compare by
  value (for strings and \<open>undefined\<close>, SameValueZero is equality).
\<close>

type_synonym ('k, 'v) Map = "('k \<times> 'v) list"

definition has_Map :: "('k, 'v) Map \<Rightarrow> 'k \<Rightarrow> bool" where
  "has_Map m k = (map_of m k \<noteq> None)"

definition get_Map :: "('k, 'v) Map \<Rightarrow> 'k \<Rightarrow> 'v option" where
  "get_Map m k = map_of m k"

fun set_Map :: "('k, 'v) Map \<Rightarrow> 'k \<Rightarrow> 'v \<Rightarrow> ('k, 'v) Map" where
  "set_Map [] k v = [(k, v)]"
| "set_Map ((k', v') # m) k v = (if k' = k then (k, v) # m else (k', v') # set_Map m k v)"

definition size_Map :: "('k, 'v) Map \<Rightarrow> nat" where
  "size_Map m = length m"

definition values_Map :: "('k, 'v) Map \<Rightarrow> 'v list" where
  "values_Map m = map snd m"

section \<open>Retrieval\<close>

text \<open>
  \<open>scrape\<close>: the search of the store either rejects or resolves with records; each
  record is stamped with the search term. The store's search is a parameter.
\<close>

definition scrape :: "(string \<Rightarrow> error + 'f App list) \<Rightarrow> string \<Rightarrow> error + 'f App list" where
  "scrape search t =
     (case search t of
        Inl e \<Rightarrow> Inl e
      | Inr found \<Rightarrow> Inr (map (\<lambda>app. app\<lparr>searchTerm := Some t\<rparr>) found))"

text \<open>
  \<open>Promise.all\<close> resolves with all results when every promise resolves and rejects
  as soon as one rejects.
\<close>

fun promise_all :: "(error + 'a) list \<Rightarrow> error + 'a list" where
  "promise_all [] = Inr []"
| "promise_all (Inl e # ps) = Inl e"
| "promise_all (Inr x # ps) = (case promise_all ps of Inl e \<Rightarrow> Inl e | Inr xs \<Rightarrow> Inr (x # xs))"

text \<open>
  \<open>.catch(error => console.log(error))\<close>: a rejection becomes the value the handler
  returns, which is \<open>undefined\<close> (\<open>None\<close>).
\<close>

definition catch_log :: "error + 'a \<Rightarrow> 'a option" where
  "catch_log p = (case p of Inl e \<Rightarrow> None | Inr x \<Rightarrow> Some x)"

text \<open>\<open>(...).flat()\<close>: calling a method of \<open>undefined\<close> throws a TypeError.\<close>

definition flat :: "'a list list option \<Rightarrow> error + 'a list" where
  "flat v = (case v of None \<Rightarrow> Inl TypeError | Some xss \<Rightarrow> Inr (concat xss))"

definition storeArray :: "(string \<Rightarrow> error + 'f App list) \<Rightarrow> string list \<Rightarrow> error + 'f App list" where
  "storeArray search searchTerms =
     flat (catch_log (promise_all (map (\<lambda>searchTerm. scrape search searchTerm) searchTerms)))"

section \<open>Elimination of duplicates within one store\<close>

definition isGoogleApp :: "'f App \<Rightarrow> bool" where
  "isGoogleApp app = (summary app \<noteq> None)"

text \<open>
  One pass of the loop body. \<open>existingApp?.addGoogleAppData(app)\<close> changes the object
  the map holds at the title, so the entry keeps its place; on \<open>undefined\<close> the call
  is skipped.
\<close>

definition filteredGoogleStep ::
  "'f App \<Rightarrow> (string option, 'f CombinedApp) Map \<Rightarrow> (string option, 'f CombinedApp) Map" where
  "filteredGoogleStep app m =
     (let m1 = (if \<not> has_Map m (title app) then set_Map m (title app) newCombinedApp else m)
      in case get_Map m1 (title app) of
           None \<Rightarrow> m1
         | Some existingApp \<Rightarrow> set_Map m1 (title app) (addGoogleAppData existingApp app))"

definition filteredAppleStep ::
  "'f App \<Rightarrow> (string option, 'f CombinedApp) Map \<Rightarrow> (string option, 'f CombinedApp) Map" where
  "filteredAppleStep app m =
     (let m1 = (if \<not> has_Map m (title app) then set_Map m (title app) newCombinedApp else m)
      in case get_Map m1 (title app) of
           None \<Rightarrow> m1
         | Some existingApp \<Rightarrow> set_Map m1 (title app) (addAppleAppData existingApp app))"

definition filteredGoogleApps :: "'f App list \<Rightarrow> (string option, 'f CombinedApp) Map" where
  "filteredGoogleApps playStoreArray = fold filteredGoogleStep playStoreArray []"

definition filteredAppleApps :: "'f App list \<Rightarrow> (string option, 'f CombinedApp) Map" where
  "filteredAppleApps appStoreArray = fold filteredAppleStep appStoreArray []"

text \<open>The two numbers of the log line: duplicates removed and apps remaining.\<close>

definition removedGoogle :: "'f App list \<Rightarrow> int \<times> int" where
  "removedGoogle playStoreArray =
     (int (length playStoreArray) - int (size_Map (filteredGoogleApps playStoreArray)),
      int (size_Map (filteredGoogleApps playStoreArray)))"

definition removedApple :: "'f App list \<Rightarrow> int \<times> int" where
  "removedApple appStoreArray =
     (int (length appStoreArray) - int (size_Map (filteredAppleApps appStoreArray)),
      int (size_Map (filteredAppleApps appStoreArray)))"

section \<open>Adding the apps of both stores together\<close>

text \<open>
  One pass of the loop body. \<open>apps.get(app.title)!\<close> asserts a value; were it
  \<open>undefined\<close>, the method call on it would throw a TypeError.
\<close>

definition appsStep ::
  "(string option, 'f CombinedApp) Map \<Rightarrow> 'f App \<Rightarrow> error + (string option, 'f CombinedApp) Map" where
  "appsStep m app =
     (let m1 = (if \<not> has_Map m (title app) then set_Map m (title app) newCombinedApp else m)
      in case get_Map m1 (title app) of
           None \<Rightarrow> Inl TypeError
         | Some exisitingApp \<Rightarrow>
             Inr (set_Map m1 (title app)
                   (if isGoogleApp app then addGoogleAppData exisitingApp app
                    else addAppleAppData exisitingApp app)))"

fun appsLoop ::
  "(string option, 'f CombinedApp) Map \<Rightarrow> 'f App list \<Rightarrow> error + (string option, 'f CombinedApp) Map" where
  "appsLoop m [] = Inr m"
| "appsLoop m (app # following) =
     (case appsStep m app of Inl e \<Rightarrow> Inl e | Inr m' \<Rightarrow> appsLoop m' following)"

definition apps ::
  "'f App list \<Rightarrow> 'f App list \<Rightarrow> error + (string option, 'f CombinedApp) Map" where
  "apps playStoreArray appStoreArray = appsLoop [] (playStoreArray @ appStoreArray)"

definition withBothAppStores :: "'f CombinedApp \<Rightarrow> 'f ExportedApp" where
  "withBothAppStores app =
     \<lparr>titleGoogle = titleGoogle app, titleApple = titleApple app,
      dataGoogle = dataGoogle app, dataApple = dataApple app,
      bothAppStores = Boolean (js_and (titleApple app) (titleGoogle app))\<rparr>"

definition appsAsArray :: "(string option, 'f CombinedApp) Map \<Rightarrow> 'f ExportedApp list" where
  "appsAsArray m = map withBothAppStores (values_Map m)"

text \<open>
  Steps 2 to 4 of the script on the two arrays: the rows handed to \<open>saveToCsv\<close>.
  The maps of step 2 only feed the log lines; the rows come from the map of step 3.
\<close>

definition exported :: "'f App list \<Rightarrow> 'f App list \<Rightarrow> error + 'f ExportedApp list" where
  "exported playStoreArray appStoreArray =
     (case apps playStoreArray appStoreArray of
        Inl e \<Rightarrow> Inl e
      | Inr m \<Rightarrow> Inr (appsAsArray m))"

text \<open>
  The script from step 1 on, for the selected search terms and the search of each
  store: an uncaught error ends it without an export.
\<close>

definition run ::
  "string list \<Rightarrow> (string \<Rightarrow> error + 'f App list) \<Rightarrow> (string \<Rightarrow> error + 'f App list)
     \<Rightarrow> error + 'f ExportedApp list" where
  "run searchTerms googleSearch appleSearch =
     (case storeArray googleSearch searchTerms of
        Inl e \<Rightarrow> Inl e
      | Inr playStoreArray \<Rightarrow>
          (case storeArray appleSearch searchTerms of
             Inl e \<Rightarrow> Inl e
           | Inr appStoreArray \<Rightarrow> exported playStoreArray appStoreArray))"

section \<open>Notions of the specification\<close>

text \<open>
  The order of first encounter: the elements of a list, each at the place of its first
  occurrence.
\<close>

definition firstSeen :: "'a list \<Rightarrow> 'a list" where
  "firstSeen ts = map (\<lambda>i. ts ! i) (filter (\<lambda>i. ts ! i \<notin> set (take i ts)) [0..<length ts])"

text \<open>
  The per-source data after elimination of duplicates, as records again: what each
  entry of the per-store map holds of its store.
\<close>

definition retainedGoogle :: "(string option, 'f CombinedApp) Map \<Rightarrow> 'f App list" where
  "retainedGoogle m = List.map_filter dataGoogle (values_Map m)"

definition retainedApple :: "(string option, 'f CombinedApp) Map \<Rightarrow> 'f App list" where
  "retainedApple m = List.map_filter dataApple (values_Map m)"

text \<open>A record without a title read as a record with the empty string as title.\<close>

definition missingTitleAsEmpty :: "'f App \<Rightarrow> 'f App" where
  "missingTitleAsEmpty app = app\<lparr>title := Some (case title app of None \<Rightarrow> [] | Some t \<Rightarrow> t)\<rparr>"

section \<open>Auxiliary definitions\<close>

text \<open>
  The loop bodies share one shape: look the title up, start from a new record if it is
  not there, add the data, store the result at the title.
\<close>

definition upsert ::
  "('f CombinedApp \<Rightarrow> 'f App \<Rightarrow> 'f CombinedApp) \<Rightarrow> 'f App
     \<Rightarrow> (string option, 'f CombinedApp) Map \<Rightarrow> (string option, 'f CombinedApp) Map" where
  "upsert add app m =
     set_Map m (title app)
       (add (case map_of m (title app) of None \<Rightarrow> newCombinedApp | Some c \<Rightarrow> c) app)"

definition addAppData :: "'f CombinedApp \<Rightarrow> 'f App \<Rightarrow> 'f CombinedApp" where
  "addAppData c app = (if isGoogleApp app then addGoogleAppData c app else addAppleAppData c app)"

text \<open>Adding the records of a list one after the other leaves the data of the last.\<close>

definition lastGoogle :: "'f App list \<Rightarrow> 'f CombinedApp \<Rightarrow> 'f CombinedApp" where
  "lastGoogle ys c = (if ys = [] then c else addGoogleAppData c (last ys))"

definition lastApple :: "'f App list \<Rightarrow> 'f CombinedApp \<Rightarrow> 'f CombinedApp" where
  "lastApple ys c = (if ys = [] then c else addAppleAppData c (last ys))"

definition lastPerTitle :: "'f App list \<Rightarrow> 'f App list" where
  "lastPerTitle xs = map (\<lambda>t. last (filter (\<lambda>x. title x = t) xs)) (firstSeen (map title xs))"

section \<open>The map and the loop bodies\<close>

lemma map_of_set_Map: "map_of (set_Map m k v) = (map_of m)(k \<mapsto> v)"
  by (induction m k v rule: set_Map.induct) auto

lemma keys_set_Map:
  "map fst (set_Map m k v) = (if k \<in> set (map fst m) then map fst m else map fst m @ [k])"
  by (induction m k v rule: set_Map.induct) auto

lemma set_Map_idem: "set_Map (set_Map m k v) k w = set_Map m k w"
  by (induction m k v rule: set_Map.induct) auto

lemma filteredGoogleStep_upsert: "filteredGoogleStep app m = upsert addGoogleAppData app m"
  by (cases "map_of m (title app)")
     (simp_all add: filteredGoogleStep_def upsert_def has_Map_def get_Map_def Let_def
        map_of_set_Map set_Map_idem)

lemma filteredAppleStep_upsert: "filteredAppleStep app m = upsert addAppleAppData app m"
  by (cases "map_of m (title app)")
     (simp_all add: filteredAppleStep_def upsert_def has_Map_def get_Map_def Let_def
        map_of_set_Map set_Map_idem)

lemma appsStep_upsert: "appsStep m app = Inr (upsert addAppData app m)"
  by (cases "map_of m (title app)")
     (simp_all add: appsStep_def upsert_def addAppData_def has_Map_def get_Map_def Let_def
        map_of_set_Map set_Map_idem)

lemma appsLoop_fold: "appsLoop m xs = Inr (fold (upsert addAppData) xs m)"
  by (induction xs arbitrary: m) (simp_all add: appsStep_upsert)

lemma keys_upsert:
  "map fst (upsert add app m) =
     (if title app \<in> set (map fst m) then map fst m else map fst m @ [title app])"
  by (simp add: upsert_def keys_set_Map)

lemma firstSeen_Nil: "firstSeen [] = []"
  by (simp add: firstSeen_def)

lemma firstSeen_snoc:
  "firstSeen (ts @ [t]) = (if t \<in> set ts then firstSeen ts else firstSeen ts @ [t])"
proof -
  let ?P = "\<lambda>us i. us ! i \<notin> set (take i us)"
  have a: "filter (?P (ts @ [t])) [0..<length ts] = filter (?P ts) [0..<length ts]"
    by (rule filter_cong) (auto simp: nth_append)
  have b: "map (\<lambda>i. (ts @ [t]) ! i) (filter (?P ts) [0..<length ts])
         = map (\<lambda>i. ts ! i) (filter (?P ts) [0..<length ts])"
    by (rule map_cong) (auto simp: nth_append)
  have c: "?P (ts @ [t]) (length ts) = (t \<notin> set ts)"
    by simp
  have "firstSeen (ts @ [t]) =
          map (\<lambda>i. (ts @ [t]) ! i) (filter (?P (ts @ [t])) ([0..<length ts] @ [length ts]))"
    by (simp only: firstSeen_def length_append_singleton upt_Suc_append [OF le0])
  also have "\<dots> = map (\<lambda>i. (ts @ [t]) ! i) (filter (?P ts) [0..<length ts])
                   @ (if t \<in> set ts then [] else [t])"
    by (simp only: filter_append map_append a) (simp only: filter.simps c, simp)
  finally show ?thesis
    by (simp add: b firstSeen_def)
qed

lemma set_firstSeen: "set (firstSeen ts) = set ts"
  by (induction ts rule: rev_induct) (auto simp: firstSeen_Nil firstSeen_snoc)

lemma distinct_firstSeen: "distinct (firstSeen ts)"
  by (induction ts rule: rev_induct) (auto simp: firstSeen_Nil firstSeen_snoc set_firstSeen)

lemma keys_fold_upsert: "map fst (fold (upsert add) xs []) = firstSeen (map title xs)"
proof (induction xs rule: rev_induct)
  case Nil
  show ?case by (simp add: firstSeen_Nil)
next
  case (snoc x xs)
  have "map fst (fold (upsert add) (xs @ [x]) []) =
          (if title x \<in> set (firstSeen (map title xs)) then firstSeen (map title xs)
           else firstSeen (map title xs) @ [title x])"
    by (simp add: keys_upsert snoc.IH)
  also have "\<dots> = firstSeen (map title xs @ [title x])"
    by (simp only: firstSeen_snoc set_firstSeen)
  finally show ?case by simp
qed

lemma map_of_upsert:
  "map_of (upsert add x m) k =
     (if title x = k
      then Some (add (case map_of m k of None \<Rightarrow> newCombinedApp | Some c \<Rightarrow> c) x)
      else map_of m k)"
  by (auto simp: upsert_def map_of_set_Map)

lemma map_of_fold_upsert:
  "map_of (fold (upsert add) xs m) k =
     (if filter (\<lambda>x. title x = k) xs = [] then map_of m k
      else Some (fold (\<lambda>app c. add c app) (filter (\<lambda>x. title x = k) xs)
                  (case map_of m k of None \<Rightarrow> newCombinedApp | Some c \<Rightarrow> c)))"
proof (induction xs arbitrary: m)
  case Nil
  show ?case by simp
next
  case (Cons x xs)
  have "map_of (fold (upsert add) (x # xs) m) k = map_of (fold (upsert add) xs (upsert add x m)) k"
    by simp
  then show ?case
    by (simp add: Cons.IH map_of_upsert)
qed

lemma apps_fold: "apps g a = Inr (fold (upsert addAppData) (g @ a) [])"
  by (simp add: apps_def appsLoop_fold)

lemma filteredGoogleApps_fold: "filteredGoogleApps g = fold (upsert addGoogleAppData) g []"
  unfolding filteredGoogleApps_def
  by (rule arg_cong [where f = "\<lambda>f. fold f g []"]) (intro ext, rule filteredGoogleStep_upsert)

lemma filteredAppleApps_fold: "filteredAppleApps a = fold (upsert addAppleAppData) a []"
  unfolding filteredAppleApps_def
  by (rule arg_cong [where f = "\<lambda>f. fold f a []"]) (intro ext, rule filteredAppleStep_upsert)

lemma distinct_keys_fold: "distinct (map fst (fold (upsert add) xs []))"
  by (simp add: keys_fold_upsert distinct_firstSeen)

lemma size_fold_upsert: "length (fold (upsert add) xs []) = card (set (map title xs))"
proof -
  have "length (fold (upsert add) xs []) = length (map fst (fold (upsert add) xs []))"
    by simp
  also have "\<dots> = card (set (firstSeen (map title xs)))"
    by (simp only: keys_fold_upsert distinct_card [OF distinct_firstSeen])
  finally show ?thesis by (simp only: set_firstSeen)
qed

lemma fold_addGoogleAppData:
  "fold (\<lambda>app c. addGoogleAppData c app) ys c = lastGoogle ys c"
  by (induction ys arbitrary: c rule: rev_induct)
     (simp_all add: lastGoogle_def addGoogleAppData_def)

lemma fold_addAppleAppData:
  "fold (\<lambda>app c. addAppleAppData c app) ys c = lastApple ys c"
  by (induction ys arbitrary: c rule: rev_induct)
     (simp_all add: lastApple_def addAppleAppData_def)

lemma fold_addAppData:
  "fold (\<lambda>app c. addAppData c app) ys c =
     lastApple (filter (\<lambda>y. \<not> isGoogleApp y) ys) (lastGoogle (filter isGoogleApp ys) c)"
  by (induction ys arbitrary: c rule: rev_induct)
     (simp_all add: lastApple_def lastGoogle_def addAppData_def addGoogleAppData_def
        addAppleAppData_def)

lemma last_filter_title:
  "filter (\<lambda>x. title x = t) xs \<noteq> [] \<Longrightarrow> title (last (filter (\<lambda>x. title x = t) xs)) = t"
  using last_in_set [of "filter (\<lambda>x. title x = t) xs"] by simp

lemma filter_title_empty: "(filter (\<lambda>x. title x = t) xs = []) = (t \<notin> set (map title xs))"
  by (auto simp: filter_empty_conv)

lemma count_key: 
  "distinct (map fst m) \<Longrightarrow> length (filter (\<lambda>entry. fst entry = t) m) = (if t \<in> set (map fst m) then 1 else 0)"
  by (induction m) (auto simp: rev_image_eqI)

lemma apps_value:
  "map_of (fold (upsert addAppData) xs []) t =
     (if t \<in> set (map title xs)
      then Some (lastApple (filter (\<lambda>y. \<not> isGoogleApp y) (filter (\<lambda>x. title x = t) xs))
                  (lastGoogle (filter isGoogleApp (filter (\<lambda>x. title x = t) xs)) newCombinedApp))
      else None)"
  by (simp add: map_of_fold_upsert filter_title_empty fold_addAppData)

lemma bothAppStores_truthy:
  "bothAppStores (withBothAppStores c) = (truthy (titleApple c) \<and> truthy (titleGoogle c))"
  by (simp add: withBothAppStores_def Boolean_def js_and_def)

lemma titleGoogle_last:
  "titleGoogle (lastApple A (lastGoogle G newCombinedApp)) = (if G = [] then None else title (last G))"
  by (simp add: lastApple_def lastGoogle_def addGoogleAppData_def addAppleAppData_def
        newCombinedApp_def)

lemma titleApple_last:
  "titleApple (lastApple A (lastGoogle G newCombinedApp)) = (if A = [] then None else title (last A))"
  by (simp add: lastApple_def lastGoogle_def addGoogleAppData_def addAppleAppData_def
        newCombinedApp_def)

lemma flag_value:
  "map_option (\<lambda>c. bothAppStores (withBothAppStores c)) (map_of (fold (upsert addAppData) xs []) t) =
     (if t \<in> set (map title xs)
      then Some (truthy t \<and> (\<exists>x \<in> set xs. title x = t \<and> isGoogleApp x)
                  \<and> (\<exists>x \<in> set xs. title x = t \<and> \<not> isGoogleApp x))
      else None)"
proof (cases "t \<in> set (map title xs)")
  case False
  then show ?thesis by (simp add: apps_value)
next
  case True
  define G where "G = filter isGoogleApp (filter (\<lambda>x. title x = t) xs)"
  define A where "A = filter (\<lambda>y. \<not> isGoogleApp y) (filter (\<lambda>x. title x = t) xs)"
  have tg: "title (last G) = t" if "G \<noteq> []"
    using last_in_set [OF that] by (simp add: G_def)
  have ta: "title (last A) = t" if "A \<noteq> []"
    using last_in_set [OF that] by (simp add: A_def)
  have eg: "(G \<noteq> []) = (\<exists>x \<in> set xs. title x = t \<and> isGoogleApp x)"
    by (auto simp: G_def filter_empty_conv)
  have ea: "(A \<noteq> []) = (\<exists>x \<in> set xs. title x = t \<and> \<not> isGoogleApp x)"
    by (auto simp: A_def filter_empty_conv)
  have "truthy (titleGoogle (lastApple A (lastGoogle G newCombinedApp))) = (truthy t \<and> G \<noteq> [])"
    using tg by (cases "G = []") (simp_all add: titleGoogle_last)
  moreover have "truthy (titleApple (lastApple A (lastGoogle G newCombinedApp))) = (truthy t \<and> A \<noteq> [])"
    using ta by (cases "A = []") (simp_all add: titleApple_last)
  ultimately have "bothAppStores (withBothAppStores (lastApple A (lastGoogle G newCombinedApp)))
      = (truthy t \<and> (\<exists>x \<in> set xs. title x = t \<and> isGoogleApp x)
                  \<and> (\<exists>x \<in> set xs. title x = t \<and> \<not> isGoogleApp x))"
    unfolding bothAppStores_truthy eg [symmetric] ea [symmetric] by blast
  then show ?thesis
    using True by (simp only: apps_value G_def A_def if_True option.map)
qed

lemma firstSeen_append:
  "firstSeen (xs @ ys) = firstSeen xs @ filter (\<lambda>y. y \<notin> set xs) (firstSeen ys)"
proof (induction ys rule: rev_induct)
  case Nil
  show ?case by (simp add: firstSeen_Nil)
next
  case (snoc y ys)
  have "firstSeen (xs @ ys @ [y]) = firstSeen ((xs @ ys) @ [y])" by simp
  also have "\<dots> = (if y \<in> set (xs @ ys) then firstSeen (xs @ ys) else firstSeen (xs @ ys) @ [y])"
    by (rule firstSeen_snoc)
  finally show ?case
    by (simp add: snoc.IH firstSeen_snoc)
qed

lemma firstSeen_distinct: "distinct xs \<Longrightarrow> firstSeen xs = xs"
  by (induction xs rule: rev_induct) (simp_all add: firstSeen_Nil firstSeen_snoc)

lemma firstSeen_firstSeen_append:
  "firstSeen (firstSeen xs @ firstSeen ys) = firstSeen (xs @ ys)"
  by (simp add: firstSeen_append [of "firstSeen xs"] firstSeen_append [of xs]
        firstSeen_distinct distinct_firstSeen set_firstSeen)

lemma entries_by_keys:
  "distinct (map fst m) \<Longrightarrow> m = map (\<lambda>k. (k, the (map_of m k))) (map fst m)"
proof (induction m)
  case Nil
  show ?case by simp
next
  case (Cons e m)
  obtain k v where e: "e = (k, v)" by (cases e)
  from Cons.prems have k: "k \<notin> set (map fst m)" and d: "distinct (map fst m)"
    by (simp_all add: e)
  have "map (\<lambda>j. (j, the (map_of (e # m) j))) (map fst m) = map (\<lambda>j. (j, the (map_of m j))) (map fst m)"
  proof (rule map_cong [OF refl])
    fix j assume "j \<in> set (map fst m)"
    with k have "j \<noteq> k" by blast
    then show "(j, the (map_of (e # m) j)) = (j, the (map_of m j))" by (simp add: e)
  qed
  also have "\<dots> = m" using Cons.IH [OF d] by simp
  finally show ?case by (simp add: e)
qed

lemma entries_eqI:
  assumes "map fst m = map fst m'" and "distinct (map fst m)" and "\<And>k. map_of m k = map_of m' k"
  shows "m = m'"
proof -
  have d': "distinct (map fst m')" using assms(1) assms(2) by simp
  have "m = map (\<lambda>k. (k, the (map_of m k))) (map fst m)"
    using assms(2) by (rule entries_by_keys)
  also have "\<dots> = map (\<lambda>k. (k, the (map_of m' k))) (map fst m')"
    by (simp only: assms(1) assms(3))
  also have "\<dots> = m'"
    by (rule sym) (rule entries_by_keys [OF d'])
  finally show ?thesis .
qed

lemma values_by_keys:
  "distinct (map fst m) \<Longrightarrow> map snd m = map (\<lambda>k. the (map_of m k)) (map fst m)"
proof -
  assume "distinct (map fst m)"
  then have "map snd m = map snd (map (\<lambda>k. (k, the (map_of m k))) (map fst m))"
    using entries_by_keys [of m] by simp
  then show ?thesis by (simp add: comp_def)
qed

lemma retainedGoogle_filtered:
  "retainedGoogle (filteredGoogleApps g) =
     map (\<lambda>t. last (filter (\<lambda>x. title x = t) g)) (firstSeen (map title g))"
proof -
  define m where "m = fold (upsert addGoogleAppData) g []"
  have v: "map snd m = map (\<lambda>k. the (map_of m k)) (firstSeen (map title g))"
    using values_by_keys [OF distinct_keys_fold, of addGoogleAppData g]
    by (simp only: m_def keys_fold_upsert)
  have d: "dataGoogle (the (map_of m k)) = Some (last (filter (\<lambda>x. title x = k) g))"
    if "k \<in> set (firstSeen (map title g))" for k
    using that
    by (simp add: m_def map_of_fold_upsert filter_title_empty set_firstSeen
          fold_addGoogleAppData lastGoogle_def)
       (simp add: addGoogleAppData_def)
  have "List.map_filter dataGoogle (map (\<lambda>k. the (map_of m k)) ks)
          = map (\<lambda>t. last (filter (\<lambda>x. title x = t) g)) ks"
    if "set ks \<subseteq> set (firstSeen (map title g))" for ks
    using that by (induction ks) (simp_all add: d)
  then show ?thesis
    by (simp add: retainedGoogle_def values_Map_def filteredGoogleApps_fold m_def [symmetric] v)
qed

lemma retainedApple_filtered:
  "retainedApple (filteredAppleApps a) =
     map (\<lambda>t. last (filter (\<lambda>x. title x = t) a)) (firstSeen (map title a))"
proof -
  define m where "m = fold (upsert addAppleAppData) a []"
  have v: "map snd m = map (\<lambda>k. the (map_of m k)) (firstSeen (map title a))"
    using values_by_keys [OF distinct_keys_fold, of addAppleAppData a]
    by (simp only: m_def keys_fold_upsert)
  have d: "dataApple (the (map_of m k)) = Some (last (filter (\<lambda>x. title x = k) a))"
    if "k \<in> set (firstSeen (map title a))" for k
    using that
    by (simp add: m_def map_of_fold_upsert filter_title_empty set_firstSeen
          fold_addAppleAppData lastApple_def)
       (simp add: addAppleAppData_def)
  have "List.map_filter dataApple (map (\<lambda>k. the (map_of m k)) ks)
          = map (\<lambda>t. last (filter (\<lambda>x. title x = t) a)) ks"
    if "set ks \<subseteq> set (firstSeen (map title a))" for ks
    using that by (induction ks) (simp_all add: d)
  then show ?thesis
    by (simp add: retainedApple_def values_Map_def filteredAppleApps_fold m_def [symmetric] v)
qed

lemma title_lastPerTitle: "map title (lastPerTitle xs) = firstSeen (map title xs)"
proof -
  have "title (last (filter (\<lambda>x. title x = t) xs)) = t" if "t \<in> set (firstSeen (map title xs))" for t
    using that last_filter_title [of t xs] by (simp add: set_firstSeen filter_title_empty)
  then have "map (\<lambda>t. title (last (filter (\<lambda>x. title x = t) xs))) (firstSeen (map title xs))
      = map (\<lambda>t. t) (firstSeen (map title xs))"
    by (intro map_cong) simp_all
  then show ?thesis by (simp add: lastPerTitle_def comp_def)
qed

lemma set_lastPerTitle: "set (lastPerTitle xs) \<subseteq> set xs"
proof
  fix x assume "x \<in> set (lastPerTitle xs)"
  then obtain t where t: "t \<in> set (map title xs)" and x: "x = last (filter (\<lambda>x. title x = t) xs)"
    by (auto simp: lastPerTitle_def set_firstSeen)
  from t have "filter (\<lambda>x. title x = t) xs \<noteq> []" by (simp add: filter_title_empty)
  from last_in_set [OF this] x show "x \<in> set xs" by simp
qed

lemma filter_eq_distinct: "distinct ks \<Longrightarrow> filter (\<lambda>k. k = t) ks = (if t \<in> set ks then [t] else [])"
  by (induction ks) auto

lemma filter_lastPerTitle:
  "filter (\<lambda>x. title x = t) (lastPerTitle xs) =
     (if t \<in> set (map title xs) then [last (filter (\<lambda>x. title x = t) xs)] else [])"
proof -
  let ?L = "\<lambda>t. last (filter (\<lambda>x. title x = t) xs)"
  let ?ks = "firstSeen (map title xs)"
  have "title (?L k) = k" if "k \<in> set ?ks" for k
    using that last_filter_title [of k xs] by (simp add: set_firstSeen filter_title_empty)
  then have "filter (\<lambda>k. title (?L k) = t) ?ks = filter (\<lambda>k. k = t) ?ks"
    by (intro filter_cong) simp_all
  then have "filter (\<lambda>x. title x = t) (lastPerTitle xs) = map ?L (filter (\<lambda>k. k = t) ?ks)"
    by (simp add: lastPerTitle_def filter_map comp_def)
  then show ?thesis
    by (simp add: filter_eq_distinct [OF distinct_firstSeen] set_firstSeen)
qed

lemma split_by_variant:
  assumes "list_all isGoogleApp g" and "list_all (\<lambda>app. \<not> isGoogleApp app) a"
  shows "filter isGoogleApp (filter P (g @ a)) = filter P g"
    and "filter (\<lambda>y. \<not> isGoogleApp y) (filter P (g @ a)) = filter P a"
proof -
  have g: "filter isGoogleApp (filter P g) = filter P g" "filter (\<lambda>y. \<not> isGoogleApp y) (filter P g) = []"
    using assms(1) by (auto simp: list_all_iff filter_empty_conv intro: filter_cong)
  have a: "filter isGoogleApp (filter P a) = []" "filter (\<lambda>y. \<not> isGoogleApp y) (filter P a) = filter P a"
    using assms(2) by (auto simp: list_all_iff filter_empty_conv intro: filter_cong)
  show "filter isGoogleApp (filter P (g @ a)) = filter P g"
    by (simp only: filter_append g a append_Nil2)
  show "filter (\<lambda>y. \<not> isGoogleApp y) (filter P (g @ a)) = filter P a"
    by (simp only: filter_append g a append_Nil)
qed

lemma list_all_lastPerTitle: "list_all P xs \<Longrightarrow> list_all P (lastPerTitle xs)"
  using set_lastPerTitle [of xs] by (auto simp: list_all_iff)

lemma lastGoogle_lastPerTitle:
  "lastGoogle (filter (\<lambda>x. title x = t) (lastPerTitle xs)) c = lastGoogle (filter (\<lambda>x. title x = t) xs) c"
  by (simp add: filter_lastPerTitle lastGoogle_def filter_title_empty)

lemma lastApple_lastPerTitle:
  "lastApple (filter (\<lambda>x. title x = t) (lastPerTitle xs)) c = lastApple (filter (\<lambda>x. title x = t) xs) c"
  by (simp add: filter_lastPerTitle lastApple_def filter_title_empty)

lemma merge_lastPerTitle:
  assumes "list_all isGoogleApp g" and "list_all (\<lambda>app. \<not> isGoogleApp app) a"
  shows "fold (upsert addAppData) (lastPerTitle g @ lastPerTitle a) []
       = fold (upsert addAppData) (g @ a) []"
proof (rule entries_eqI)
  show "map fst (fold (upsert addAppData) (lastPerTitle g @ lastPerTitle a) [])
      = map fst (fold (upsert addAppData) (g @ a) [])"
    by (simp only: keys_fold_upsert map_append title_lastPerTitle firstSeen_firstSeen_append)
  show "distinct (map fst (fold (upsert addAppData) (lastPerTitle g @ lastPerTitle a) []))"
    by (rule distinct_keys_fold)
  fix t
  have s: "set (map title (lastPerTitle g @ lastPerTitle a)) = set (map title (g @ a))"
    by (simp only: map_append title_lastPerTitle set_append set_firstSeen)
  show "map_of (fold (upsert addAppData) (lastPerTitle g @ lastPerTitle a) []) t
      = map_of (fold (upsert addAppData) (g @ a) []) t"
    by (simp only: apps_value s
          split_by_variant [OF assms]
          split_by_variant [OF list_all_lastPerTitle [OF assms(1)] list_all_lastPerTitle [OF assms(2)]]
          lastGoogle_lastPerTitle lastApple_lastPerTitle)
qed

lemma promise_all_rejects: "Inl e \<in> set ps \<Longrightarrow> \<exists>e'. promise_all ps = Inl e'"
  by (induction ps rule: promise_all.induct) (auto split: sum.splits)

lemma storeArray_rejected:
  assumes "t \<in> set searchTerms" and "search t = Inl e"
  shows "storeArray search searchTerms = Inl TypeError"
proof -
  have "Inl e \<in> set (map (\<lambda>searchTerm. scrape search searchTerm) searchTerms)"
    using assms by (force simp: scrape_def)
  from promise_all_rejects [OF this] show ?thesis
    by (auto simp: storeArray_def catch_log_def flat_def)
qed

lemma storeArray_error: "storeArray search searchTerms = Inl x \<Longrightarrow> x = TypeError"
  by (auto simp: storeArray_def flat_def split: option.splits)

lemma run_rejected:
  assumes "t \<in> set searchTerms" and "googleSearch t = Inl e \<or> appleSearch t = Inl e"
  shows "run searchTerms googleSearch appleSearch = Inl TypeError"
proof (cases "storeArray googleSearch searchTerms")
  case (Inl x)
  with storeArray_error [OF Inl] show ?thesis by (simp add: run_def)
next
  case (Inr playStoreArray)
  with storeArray_rejected [of t searchTerms googleSearch e] assms
  have "appleSearch t = Inl e" by auto
  with storeArray_rejected [of t searchTerms appleSearch e] assms(1) Inr
  show ?thesis by (simp add: run_def)
qed

section \<open>Properties\<close>

text \<open>
  C1. The Play Store returns records titled Foo, Bar, Foo and the App Store records
  titled Bar, Baz. The export has three rows, for Foo, Bar and Baz in this order, with
  \<open>bothAppStores\<close> false, true and false; of the three Play Store records two
  remain after the elimination of duplicates and one is removed.
\<close>

theorem scenario:
  "map_sum id (map (\<lambda>e. (titleGoogle e, titleApple e, bothAppStores e)))
     (exported
        [\<lparr>title = Some ''Foo'', searchTerm = q1, summary = Some s1, rest = r1\<rparr>,
         \<lparr>title = Some ''Bar'', searchTerm = q2, summary = Some s2, rest = r2\<rparr>,
         \<lparr>title = Some ''Foo'', searchTerm = q3, summary = Some s3, rest = r3\<rparr>]
        [\<lparr>title = Some ''Bar'', searchTerm = q4, summary = None, rest = r4\<rparr>,
         \<lparr>title = Some ''Baz'', searchTerm = q5, summary = None, rest = r5\<rparr>])
   = Inr [(Some ''Foo'', None, False), (Some ''Bar'', Some ''Bar'', True),
          (None, Some ''Baz'', False)]
   \<and> int (length
        [\<lparr>title = Some ''Foo'', searchTerm = q1, summary = Some s1, rest = r1\<rparr>,
         \<lparr>title = Some ''Bar'', searchTerm = q2, summary = Some s2, rest = r2\<rparr>,
         \<lparr>title = Some ''Foo'', searchTerm = q3, summary = Some s3, rest = r3\<rparr>]) = 3
   \<and> removedGoogle
        [\<lparr>title = Some ''Foo'', searchTerm = q1, summary = Some s1, rest = r1\<rparr>,
         \<lparr>title = Some ''Bar'', searchTerm = q2, summary = Some s2, rest = r2\<rparr>,
         \<lparr>title = Some ''Foo'', searchTerm = q3, summary = Some s3, rest = r3\<rparr>] = (1, 2)"
  by (simp add: exported_def apps_def appsStep_def has_Map_def get_Map_def isGoogleApp_def
      addGoogleAppData_def addAppleAppData_def newCombinedApp_def appsAsArray_def
      values_Map_def withBothAppStores_def Boolean_def js_and_def removedGoogle_def
      size_Map_def filteredGoogleApps_def filteredGoogleStep_def)

text \<open>
  C2. A title is the empty string in both stores: both provenance markers of the
  exported row are present (they are the empty string, not \<open>undefined\<close>), and
  \<open>bothAppStores\<close> is false, since \<open>Boolean\<close> of the empty string is false.
\<close>

theorem empty_title_in_both_stores:
  "map_sum id (map (\<lambda>e. (titleGoogle e, titleApple e, bothAppStores e)))
     (exported [\<lparr>title = Some '''', searchTerm = q1, summary = Some s1, rest = r1\<rparr>]
               [\<lparr>title = Some '''', searchTerm = q2, summary = None, rest = r2\<rparr>])
   = Inr [(Some '''', Some '''', False)]"
  by (simp add: exported_def apps_def appsStep_def has_Map_def get_Map_def isGoogleApp_def
      addGoogleAppData_def addAppleAppData_def newCombinedApp_def appsAsArray_def
      values_Map_def withBothAppStores_def Boolean_def js_and_def)

text \<open>
  C3. For a title that occurs in the array of a store, the map of that store holds
  exactly one entry, and its record is a new record with the data of the last record
  of that title added, nothing of the earlier ones.
\<close>

theorem last_write_wins:
  assumes "t \<in> set (map title playStoreArray)" and "u \<in> set (map title appStoreArray)"
  shows "length (filter (\<lambda>entry. fst entry = t) (filteredGoogleApps playStoreArray)) = 1
       \<and> get_Map (filteredGoogleApps playStoreArray) t
           = Some (addGoogleAppData newCombinedApp (last (filter (\<lambda>app. title app = t) playStoreArray)))
       \<and> length (filter (\<lambda>entry. fst entry = u) (filteredAppleApps appStoreArray)) = 1
       \<and> get_Map (filteredAppleApps appStoreArray) u
           = Some (addAppleAppData newCombinedApp (last (filter (\<lambda>app. title app = u) appStoreArray)))"
proof -
  have g1: "length (filter (\<lambda>entry. fst entry = t) (filteredGoogleApps playStoreArray)) = 1"
    using assms(1)
    by (simp only: filteredGoogleApps_fold count_key [OF distinct_keys_fold] keys_fold_upsert
          set_firstSeen if_True)
  have a1: "length (filter (\<lambda>entry. fst entry = u) (filteredAppleApps appStoreArray)) = 1"
    using assms(2)
    by (simp only: filteredAppleApps_fold count_key [OF distinct_keys_fold] keys_fold_upsert
          set_firstSeen if_True)
  have g2: "get_Map (filteredGoogleApps playStoreArray) t
           = Some (addGoogleAppData newCombinedApp (last (filter (\<lambda>app. title app = t) playStoreArray)))"
    using assms(1)
    by (simp add: get_Map_def filteredGoogleApps_fold map_of_fold_upsert filter_title_empty
          fold_addGoogleAppData lastGoogle_def)
  have a2: "get_Map (filteredAppleApps appStoreArray) u
           = Some (addAppleAppData newCombinedApp (last (filter (\<lambda>app. title app = u) appStoreArray)))"
    using assms(2)
    by (simp add: get_Map_def filteredAppleApps_fold map_of_fold_upsert filter_title_empty
          fold_addAppleAppData lastApple_def)
  from g1 g2 a1 a2 show ?thesis by blast
qed

theorem last_write_wins_witness:
  "Some ''Foo'' \<in> set (map title
      [\<lparr>title = Some ''Foo'', searchTerm = Some ''a'', summary = Some ''one'', rest = ()\<rparr>,
       \<lparr>title = Some ''Bar'', searchTerm = Some ''a'', summary = Some ''two'', rest = ()\<rparr>,
       \<lparr>title = Some ''Foo'', searchTerm = Some ''b'', summary = Some ''three'', rest = ()\<rparr>])
   \<and> Some ''Bar'' \<in> set (map title
      [\<lparr>title = Some ''Bar'', searchTerm = Some ''a'', summary = None, rest = ()\<rparr>,
       \<lparr>title = Some ''Bar'', searchTerm = Some ''b'', summary = None, rest = ()\<rparr>])
   \<and> get_Map (filteredGoogleApps
      [\<lparr>title = Some ''Foo'', searchTerm = Some ''a'', summary = Some ''one'', rest = ()\<rparr>,
       \<lparr>title = Some ''Bar'', searchTerm = Some ''a'', summary = Some ''two'', rest = ()\<rparr>,
       \<lparr>title = Some ''Foo'', searchTerm = Some ''b'', summary = Some ''three'', rest = ()\<rparr>])
      (Some ''Foo'')
     = Some \<lparr>titleGoogle = Some ''Foo'', titleApple = None,
             dataGoogle = Some \<lparr>title = Some ''Foo'', searchTerm = Some ''b'',
                                 summary = Some ''three'', rest = ()\<rparr>,
             dataApple = None\<rparr>
   \<and> get_Map (filteredAppleApps
      [\<lparr>title = Some ''Bar'', searchTerm = Some ''a'', summary = None, rest = ()\<rparr>,
       \<lparr>title = Some ''Bar'', searchTerm = Some ''b'', summary = None, rest = ()\<rparr>])
      (Some ''Bar'')
     = Some \<lparr>titleGoogle = None, titleApple = Some ''Bar'', dataGoogle = None,
             dataApple = Some \<lparr>title = Some ''Bar'', searchTerm = Some ''b'',
                                summary = None, rest = ()\<rparr>\<rparr>"
proof -
  let ?g = "[\<lparr>title = Some ''Foo'', searchTerm = Some ''a'', summary = Some ''one'', rest = ()\<rparr>,
       \<lparr>title = Some ''Bar'', searchTerm = Some ''a'', summary = Some ''two'', rest = ()\<rparr>,
       \<lparr>title = Some ''Foo'', searchTerm = Some ''b'', summary = Some ''three'', rest = ()\<rparr>]"
  let ?a = "[\<lparr>title = Some ''Bar'', searchTerm = Some ''a'', summary = None, rest = ()\<rparr>,
       \<lparr>title = Some ''Bar'', searchTerm = Some ''b'', summary = None, rest = ()\<rparr>]"
  have g: "Some ''Foo'' \<in> set (map title ?g)" by simp
  have a: "Some ''Bar'' \<in> set (map title ?a)" by simp
  from last_write_wins [OF g a] show ?thesis
    by (simp add: addGoogleAppData_def addAppleAppData_def newCombinedApp_def)
qed

text \<open>
  C4. Titles are compared as they are. The merged map, and the map of each store, has
  as many entries as there are different titles among the records, and the keys of the
  merged map are those titles: records of equal title, the empty title included, share
  an entry, and records whose titles differ in anything, be it case or a blank, do not.
\<close>

theorem identity_exact:
  "(\<exists>m. apps playStoreArray appStoreArray = Inr m
        \<and> size_Map m = card (set (map title (playStoreArray @ appStoreArray)))
        \<and> set (map fst m) = set (map title (playStoreArray @ appStoreArray)))
   \<and> size_Map (filteredGoogleApps playStoreArray) = card (set (map title playStoreArray))
   \<and> size_Map (filteredAppleApps appStoreArray) = card (set (map title appStoreArray))"
proof -
  define xs where "xs = playStoreArray @ appStoreArray"
  define m where "m = fold (upsert addAppData) xs []"
  have "apps playStoreArray appStoreArray = Inr m"
    by (simp only: apps_fold xs_def m_def)
  moreover have "size_Map m = card (set (map title xs))"
    by (simp only: m_def size_Map_def size_fold_upsert)
  moreover have "set (map fst m) = set (map title xs)"
    by (simp only: m_def keys_fold_upsert set_firstSeen)
  ultimately have "\<exists>m. apps playStoreArray appStoreArray = Inr m
        \<and> size_Map m = card (set (map title (playStoreArray @ appStoreArray)))
        \<and> set (map fst m) = set (map title (playStoreArray @ appStoreArray))"
    unfolding xs_def by blast
  moreover have "size_Map (filteredGoogleApps playStoreArray) = card (set (map title playStoreArray))"
    by (simp only: filteredGoogleApps_fold size_Map_def size_fold_upsert)
  moreover have "size_Map (filteredAppleApps appStoreArray) = card (set (map title appStoreArray))"
    by (simp only: filteredAppleApps_fold size_Map_def size_fold_upsert)
  ultimately show ?thesis by blast
qed

theorem identity_exact_witness:
  "\<exists>m. apps [\<lparr>title = Some ''Foo'', searchTerm = None, summary = Some ''s'', rest = ()\<rparr>,
              \<lparr>title = Some ''foo'', searchTerm = None, summary = Some ''s'', rest = ()\<rparr>,
              \<lparr>title = Some ''Foo '', searchTerm = None, summary = Some ''s'', rest = ()\<rparr>,
              \<lparr>title = Some '''', searchTerm = None, summary = Some ''s'', rest = ()\<rparr>]
             [\<lparr>title = Some '''', searchTerm = None, summary = None, rest = ()\<rparr>] = Inr m
        \<and> size_Map m = 4
        \<and> set (map fst m) = {Some ''Foo'', Some ''foo'', Some ''Foo '', Some ''''}"
  using identity_exact
    [of "[\<lparr>title = Some ''Foo'', searchTerm = None, summary = Some ''s'', rest = ()\<rparr>,
          \<lparr>title = Some ''foo'', searchTerm = None, summary = Some ''s'', rest = ()\<rparr>,
          \<lparr>title = Some ''Foo '', searchTerm = None, summary = Some ''s'', rest = ()\<rparr>,
          \<lparr>title = Some '''', searchTerm = None, summary = Some ''s'', rest = ()\<rparr>]"
        "[\<lparr>title = Some '''', searchTerm = None, summary = None, rest = ()\<rparr>]"]
  by (elim conjE exE) (simp add: insert_commute)

text \<open>
  C5. Whichever of the two sequences is folded first, the merge returns a map, and the
  \<open>bothAppStores\<close> flag of the record at a title is the same (as is whether the
  title has a record at all).
\<close>

theorem provenance_commutes:
  "\<exists>m m'. apps sourceA sourceB = Inr m \<and> apps sourceB sourceA = Inr m'
     \<and> map_option (\<lambda>c. bothAppStores (withBothAppStores c)) (get_Map m t)
       = map_option (\<lambda>c. bothAppStores (withBothAppStores c)) (get_Map m' t)"
proof -
  have "map_option (\<lambda>c. bothAppStores (withBothAppStores c))
          (map_of (fold (upsert addAppData) (sourceA @ sourceB) []) t)
      = map_option (\<lambda>c. bothAppStores (withBothAppStores c))
          (map_of (fold (upsert addAppData) (sourceB @ sourceA) []) t)"
    by (simp only: flag_value) auto
  then show ?thesis
    by (simp only: apps_fold get_Map_def sum.inject simp_thms ex_simps)
qed

text \<open>
  C6, as the code has it. The merge and the elimination of duplicates accept every
  record. A record without a title is kept under the key \<open>undefined\<close>, which is a
  key of its own: the records without a title share one entry, the records whose title
  is the empty string share another one.
\<close>

theorem missing_title_own_identity:
  "(\<exists>m. apps playStoreArray appStoreArray = Inr m
      \<and> length (filter (\<lambda>entry. fst entry = None) m)
          = (if None \<in> set (map title (playStoreArray @ appStoreArray)) then 1 else 0)
      \<and> length (filter (\<lambda>entry. fst entry = Some '''') m)
          = (if Some '''' \<in> set (map title (playStoreArray @ appStoreArray)) then 1 else 0))
   \<and> length (filter (\<lambda>entry. fst entry = None) (filteredGoogleApps playStoreArray))
          = (if None \<in> set (map title playStoreArray) then 1 else 0)
   \<and> length (filter (\<lambda>entry. fst entry = None) (filteredAppleApps appStoreArray))
          = (if None \<in> set (map title appStoreArray) then 1 else 0)"
proof -
  have c: "length (filter (\<lambda>entry. fst entry = t) (fold (upsert add) xs []))
            = (if t \<in> set (map title xs) then 1 else 0)" for t add and xs :: "'a App list"
    by (simp only: count_key [OF distinct_keys_fold] keys_fold_upsert set_firstSeen)
  show ?thesis
    by (simp only: apps_fold filteredGoogleApps_fold filteredAppleApps_fold c
          sum.inject simp_thms ex_simps)
qed

theorem missing_title_own_identity_witness:
  "\<exists>m. apps [\<lparr>title = None, searchTerm = Some ''a'', summary = Some ''s'', rest = ()\<rparr>,
              \<lparr>title = Some '''', searchTerm = Some ''a'', summary = Some ''s'', rest = ()\<rparr>]
             [\<lparr>title = None, searchTerm = Some ''a'', summary = None, rest = ()\<rparr>] = Inr m
      \<and> length (filter (\<lambda>entry. fst entry = None) m) = 1
      \<and> length (filter (\<lambda>entry. fst entry = Some '''') m) = 1"
  using missing_title_own_identity
    [of "[\<lparr>title = None, searchTerm = Some ''a'', summary = Some ''s'', rest = ()\<rparr>,
          \<lparr>title = Some '''', searchTerm = Some ''a'', summary = Some ''s'', rest = ()\<rparr>]"
        "[\<lparr>title = None, searchTerm = Some ''a'', summary = None, rest = ()\<rparr>]"]
  by simp

text \<open>
  C6, as the claim states it, fails: a record without a title and a record with the
  empty title give two rows, and one row only once the missing title is read as the
  empty string.
\<close>

theorem missing_title_counterexample:
  "map_sum id length
     (exported [\<lparr>title = None, searchTerm = Some ''a'', summary = Some ''s'', rest = ()\<rparr>,
                \<lparr>title = Some '''', searchTerm = Some ''a'', summary = Some ''s'', rest = ()\<rparr>] [])
     = Inr 2
   \<and> map_sum id length
     (exported (map missingTitleAsEmpty
               [\<lparr>title = None, searchTerm = Some ''a'', summary = Some ''s'', rest = ()\<rparr>,
                \<lparr>title = Some '''', searchTerm = Some ''a'', summary = Some ''s'', rest = ()\<rparr>]) [])
     = Inr 1
   \<and> size_Map (filteredGoogleApps
               [\<lparr>title = None, searchTerm = Some ''a'', summary = Some ''s'', rest = ()\<rparr>,
                \<lparr>title = Some '''', searchTerm = Some ''a'', summary = Some ''s'', rest = ()\<rparr>]) = 2"
  by (simp add: exported_def apps_def appsStep_def has_Map_def get_Map_def isGoogleApp_def
      appsAsArray_def values_Map_def missingTitleAsEmpty_def
      size_Map_def filteredGoogleApps_def filteredGoogleStep_def)

text \<open>
  C7. Two search terms, the search of the Play Store rejects for the second one and
  every other search resolves: the script ends with the TypeError of \<open>flat\<close> on
  \<open>undefined\<close>, and nothing is exported. With the first search term alone, the
  same searches export the one app found in both stores.
\<close>

theorem one_failed_retrieval_aborts:
  "run [''a'', ''b'']
     (\<lambda>t. if t = ''b'' then Inl ScrapeError
          else Inr [\<lparr>title = Some ''Foo'', searchTerm = None, summary = Some ''s'', rest = ()\<rparr>])
     (\<lambda>t. Inr [\<lparr>title = Some ''Foo'', searchTerm = None, summary = None, rest = ()\<rparr>])
   = Inl TypeError
   \<and> map_sum id (map (\<lambda>e. (titleGoogle e, titleApple e, bothAppStores e)))
     (run [''a'']
       (\<lambda>t. if t = ''b'' then Inl ScrapeError
            else Inr [\<lparr>title = Some ''Foo'', searchTerm = None, summary = Some ''s'', rest = ()\<rparr>])
       (\<lambda>t. Inr [\<lparr>title = Some ''Foo'', searchTerm = None, summary = None, rest = ()\<rparr>]))
   = Inr [(Some ''Foo'', Some ''Foo'', True)]"
  by (simp add: run_def storeArray_def scrape_def catch_log_def flat_def
      exported_def apps_def appsStep_def has_Map_def get_Map_def isGoogleApp_def
      addGoogleAppData_def addAppleAppData_def newCombinedApp_def appsAsArray_def
      values_Map_def withBothAppStores_def Boolean_def js_and_def)

text \<open>
  C8. When the Play Store array holds records with a \<open>summary\<close> and the App Store
  array records without one, the merge of the two arrays and the merge of what the
  elimination of duplicates retained of them export the same rows in the same order.
\<close>

theorem merge_of_deduplicated:
  assumes "list_all isGoogleApp playStoreArray"
    and "list_all (\<lambda>app. \<not> isGoogleApp app) appStoreArray"
  shows "\<exists>rows. exported playStoreArray appStoreArray = Inr rows
           \<and> exported (retainedGoogle (filteredGoogleApps playStoreArray))
                       (retainedApple (filteredAppleApps appStoreArray)) = Inr rows"
proof -
  have "apps (retainedGoogle (filteredGoogleApps playStoreArray))
             (retainedApple (filteredAppleApps appStoreArray))
      = apps playStoreArray appStoreArray"
    using merge_lastPerTitle [OF assms]
    by (simp only: apps_fold retainedGoogle_filtered retainedApple_filtered lastPerTitle_def)
  then show ?thesis
    by (simp add: exported_def apps_fold)
qed

theorem merge_of_deduplicated_witness:
  "list_all isGoogleApp
     [\<lparr>title = Some ''Foo'', searchTerm = Some ''a'', summary = Some ''one'', rest = ()\<rparr>,
      \<lparr>title = Some ''Bar'', searchTerm = Some ''a'', summary = Some ''two'', rest = ()\<rparr>,
      \<lparr>title = Some ''Foo'', searchTerm = Some ''b'', summary = Some ''three'', rest = ()\<rparr>]
   \<and> list_all (\<lambda>app. \<not> isGoogleApp app)
     [\<lparr>title = Some ''Bar'', searchTerm = Some ''a'', summary = None, rest = ()\<rparr>,
      \<lparr>title = Some ''Baz'', searchTerm = Some ''b'', summary = None, rest = ()\<rparr>]
   \<and> (\<exists>rows. exported
        [\<lparr>title = Some ''Foo'', searchTerm = Some ''a'', summary = Some ''one'', rest = ()\<rparr>,
         \<lparr>title = Some ''Bar'', searchTerm = Some ''a'', summary = Some ''two'', rest = ()\<rparr>,
         \<lparr>title = Some ''Foo'', searchTerm = Some ''b'', summary = Some ''three'', rest = ()\<rparr>]
        [\<lparr>title = Some ''Bar'', searchTerm = Some ''a'', summary = None, rest = ()\<rparr>,
         \<lparr>title = Some ''Baz'', searchTerm = Some ''b'', summary = None, rest = ()\<rparr>] = Inr rows
      \<and> exported
        (retainedGoogle (filteredGoogleApps
          [\<lparr>title = Some ''Foo'', searchTerm = Some ''a'', summary = Some ''one'', rest = ()\<rparr>,
           \<lparr>title = Some ''Bar'', searchTerm = Some ''a'', summary = Some ''two'', rest = ()\<rparr>,
           \<lparr>title = Some ''Foo'', searchTerm = Some ''b'', summary = Some ''three'', rest = ()\<rparr>]))
        (retainedApple (filteredAppleApps
          [\<lparr>title = Some ''Bar'', searchTerm = Some ''a'', summary = None, rest = ()\<rparr>,
           \<lparr>title = Some ''Baz'', searchTerm = Some ''b'', summary = None, rest = ()\<rparr>])) = Inr rows)"
proof -
  have g: "list_all isGoogleApp
     [\<lparr>title = Some ''Foo'', searchTerm = Some ''a'', summary = Some ''one'', rest = ()\<rparr>,
      \<lparr>title = Some ''Bar'', searchTerm = Some ''a'', summary = Some ''two'', rest = ()\<rparr>,
      \<lparr>title = Some ''Foo'', searchTerm = Some ''b'', summary = Some ''three'', rest = ()\<rparr>]"
    by (simp add: isGoogleApp_def)
  have a: "list_all (\<lambda>app. \<not> isGoogleApp app)
     [\<lparr>title = Some ''Bar'', searchTerm = Some ''a'', summary = None, rest = ()\<rparr>,
      \<lparr>title = Some ''Baz'', searchTerm = Some ''b'', summary = None, rest = ()\<rparr>]"
    by (simp add: isGoogleApp_def)
  from g a merge_of_deduplicated [OF g a] show ?thesis by blast
qed

text \<open>
  C9. After any number of passes of the merge loop the map holds no title twice.
\<close>

theorem one_entry_per_title:
  "\<exists>m. appsLoop [] (take n (playStoreArray @ appStoreArray)) = Inr m \<and> distinct (map fst m)"
  using distinct_keys_fold [of addAppData "take n (playStoreArray @ appStoreArray)"]
  by (simp only: appsLoop_fold sum.inject simp_thms ex_simps)

text \<open>
  C10. The merge is a function of the two arrays. The keys of its map are the titles
  of the Play Store records followed by those of the App Store records, in the order
  of first encounter, and the exported rows are the records of the map in this order.
\<close>

theorem export_order:
  "map_sum id (map fst) (apps playStoreArray appStoreArray)
     = Inr (firstSeen (map title (playStoreArray @ appStoreArray)))
   \<and> exported playStoreArray appStoreArray
     = map_sum id (map (\<lambda>entry. withBothAppStores (snd entry))) (apps playStoreArray appStoreArray)"
proof -
  define xs where "xs = playStoreArray @ appStoreArray"
  have run: "apps playStoreArray appStoreArray = Inr (fold (upsert addAppData) xs [])"
    by (simp only: apps_fold xs_def)
  have "map_sum id (map fst) (apps playStoreArray appStoreArray) = Inr (firstSeen (map title xs))"
    by (simp add: run keys_fold_upsert)
  moreover have "exported playStoreArray appStoreArray
     = map_sum id (map (\<lambda>entry. withBothAppStores (snd entry))) (apps playStoreArray appStoreArray)"
    by (simp add: run exported_def appsAsArray_def values_Map_def)
  ultimately show ?thesis
    by (simp only: xs_def simp_thms)
qed

end
